theory Spec2Isabelle
  imports Complex_Main "HOL-Library.AList"
begin

section \<open>Python values, errors and library functions\<close>

text \<open>
  The profiler (\<^verbatim>\<open>src/api/profiler.py\<close>) works on decoded JSON: dictionaries, lists,
  strings and numbers. A Python \<^verbatim>\<open>str\<close> is modelled as a \<^typ>\<open>string\<close> whose characters are
  read as the code points 0..255. A \<^verbatim>\<open>float\<close> is modelled as an exact rational: the
  rounding error of binary floating point is outside the model. A \<^verbatim>\<open>dict\<close> is an
  association list in insertion order, looked up with \<^const>\<open>map_of\<close>.
\<close>

datatype py_error =
  KeyError | TypeError | AttributeError | ValueError | ZeroDivisionError
  | ValidationError | JSONDecodeError | RecursionError

datatype pyval =
  PNone | PBool bool | PInt int | PFloat rat | PStr string
  | PList "pyval list" | PDict "(string \<times> pyval) list"

type_synonym pydict = "(string \<times> pyval) list"

text \<open>Sequencing of a fallible step with its continuation: an exception propagates.\<close>

definition then_do :: "'e + 'a \<Rightarrow> ('a \<Rightarrow> 'e + 'b) \<Rightarrow> 'e + 'b" where
  "then_do m f = (case m of Inl e \<Rightarrow> Inl e | Inr x \<Rightarrow> f x)"

text \<open>\<^verbatim>\<open>d[k]\<close> on a dictionary: \<^verbatim>\<open>KeyError\<close> when the key is missing.\<close>

definition getitem :: "pydict \<Rightarrow> string \<Rightarrow> py_error + pyval" where
  "getitem d k = (case map_of d k of None \<Rightarrow> Inl KeyError | Some v \<Rightarrow> Inr v)"

text \<open>\<^verbatim>\<open>d.get(k, default)\<close> on a dictionary.\<close>

definition dict_get :: "pydict \<Rightarrow> string \<Rightarrow> pyval \<Rightarrow> pyval" where
  "dict_get d k dflt = (case map_of d k of None \<Rightarrow> dflt | Some v \<Rightarrow> v)"

text \<open>Truth value of an object, as \<^verbatim>\<open>if x:\<close> and \<^verbatim>\<open>not x\<close> take it.\<close>

fun truthy :: "pyval \<Rightarrow> bool" where
  "truthy PNone = False"
| "truthy (PBool b) = b"
| "truthy (PInt n) = (n \<noteq> 0)"
| "truthy (PFloat r) = (r \<noteq> 0)"
| "truthy (PStr s) = (s \<noteq> [])"
| "truthy (PList xs) = (xs \<noteq> [])"
| "truthy (PDict d) = (d \<noteq> [])"

text \<open>The numeric value of an object in arithmetic and ordering; \<^verbatim>\<open>bool\<close> is an \<^verbatim>\<open>int\<close>.\<close>

fun num_of :: "pyval \<Rightarrow> rat option" where
  "num_of (PInt n) = Some (of_int n)"
| "num_of (PFloat r) = Some r"
| "num_of (PBool b) = Some (if b then 1 else 0)"
| "num_of _ = None"

subsection \<open>Character classes and string methods\<close>

text \<open>\<^verbatim>\<open>str.isalnum\<close> on the code points below 256.\<close>

definition isalnum :: "char \<Rightarrow> bool" where
  "isalnum c = (let n = (of_char c :: nat) in
     (48 \<le> n \<and> n \<le> 57) \<or> (65 \<le> n \<and> n \<le> 90) \<or> (97 \<le> n \<and> n \<le> 122)
     \<or> n \<in> {170, 178, 179, 181, 185, 186, 188, 189, 190}
     \<or> (192 \<le> n \<and> n \<le> 214) \<or> (216 \<le> n \<and> n \<le> 246) \<or> (248 \<le> n \<and> n \<le> 255))"

text \<open>The class \<^verbatim>\<open>\w\<close> of a \<^verbatim>\<open>str\<close> pattern: alphanumeric or underscore.\<close>

definition is_word :: "char \<Rightarrow> bool" where
  "is_word c = (isalnum c \<or> c = CHR ''_'')"

text \<open>\<^verbatim>\<open>str.isspace\<close> on the code points below 256: what \<^verbatim>\<open>strip()\<close> removes.\<close>

definition isspace :: "char \<Rightarrow> bool" where
  "isspace c = (let n = (of_char c :: nat) in
     (9 \<le> n \<and> n \<le> 13) \<or> (28 \<le> n \<and> n \<le> 32) \<or> n = 133 \<or> n = 160)"

definition strip :: "string \<Rightarrow> string" where
  "strip s = rev (dropWhile isspace (rev (dropWhile isspace s)))"

text \<open>\<^verbatim>\<open>s.split(sep)\<close> for a one-character separator; \<open>cur\<close> is the piece being read, reversed.\<close>

fun split_acc :: "char \<Rightarrow> string \<Rightarrow> string \<Rightarrow> string list" where
  "split_acc sep cur [] = [rev cur]"
| "split_acc sep cur (c # cs) =
     (if c = sep then rev cur # split_acc sep [] cs else split_acc sep (c # cur) cs)"

definition split :: "char \<Rightarrow> string \<Rightarrow> string list" where
  "split sep s = split_acc sep [] s"

definition startswith :: "string \<Rightarrow> string \<Rightarrow> bool" where
  "startswith s p = (take (length p) s = p)"

text \<open>\<^verbatim>\<open>str.lower\<close> on the code points below 256.\<close>

definition lower_char :: "char \<Rightarrow> char" where
  "lower_char c = (let n = (of_char c :: nat) in
     if (65 \<le> n \<and> n \<le> 90) \<or> (192 \<le> n \<and> n \<le> 214) \<or> (216 \<le> n \<and> n \<le> 222)
     then char_of (n + 32) else c)"

definition lower :: "string \<Rightarrow> string" where
  "lower s = map lower_char s"

text \<open>\<^verbatim>\<open>sub in s\<close> for strings: \<open>sub\<close> occurs in \<open>s\<close> as a contiguous piece.\<close>

fun contains :: "string \<Rightarrow> string \<Rightarrow> bool" where
  "contains [] sub = (sub = [])"
| "contains (c # cs) sub = (startswith (c # cs) sub \<or> contains cs sub)"

section \<open>Models of \<^verbatim>\<open>models.py\<close>\<close>

record Dependency =
  name :: string
  version :: string

record DependencyAnalysis =
  "file" :: string
  dependencies :: "Dependency list"

record ActivityTrends =
  commits_per_week_avg :: rat
  new_issues :: int
  closed_issues :: int

record IssueHealth =
  open_issues :: int
  stale_issues :: int
  bug_issues :: int

record Contributor =
  username :: string
  commits :: int

section \<open>Dependency analysis\<close>

subsection \<open>\<^verbatim>\<open>parse_requirements_txt\<close>\<close>

text \<open>
  The pattern is \<^verbatim>\<open>^([\w\-]+)(?:[=~>]{1,2}([\w\.]+))?\<close>, applied with \<^verbatim>\<open>re.match\<close>.
  Group 1 is greedy, and whatever it takes the rest of the pattern can match (the
  second part is optional), so the first match the engine finds has the longest
  possible group 1. The optional part is then tried where group 1 ends: the bounded
  repetition first with two operator characters, then with one; group 2 is greedy and
  nothing follows it. When neither attempt matches, the optional part matches empty
  and group 2 is \<^verbatim>\<open>None\<close>.
\<close>

definition is_name_char :: "char \<Rightarrow> bool" where
  "is_name_char c = (is_word c \<or> c = CHR ''-'')"

definition is_op_char :: "char \<Rightarrow> bool" where
  "is_op_char c = (c = CHR ''='' \<or> c = CHR ''~'' \<or> c = CHR ''>'')"

definition is_version_char :: "char \<Rightarrow> bool" where
  "is_version_char c = (is_word c \<or> c = CHR ''.'')"

text \<open>\<^verbatim>\<open>([\w\.]+)\<close> at the start of \<open>s\<close>.\<close>

definition match_version :: "string \<Rightarrow> string option" where
  "match_version s = (let v = takeWhile is_version_char s in if v = [] then None else Some v)"

text \<open>\<^verbatim>\<open>[=~>]{n}([\w\.]+)\<close> at the start of \<open>s\<close>, for a fixed number \<open>n\<close> of operator characters.\<close>

definition match_op_version :: "nat \<Rightarrow> string \<Rightarrow> string option" where
  "match_op_version n s =
     (if n \<le> length s \<and> (\<forall>c \<in> set (take n s). is_op_char c) then match_version (drop n s)
      else None)"

text \<open>\<^verbatim>\<open>(?:[=~>]{1,2}([\w\.]+))?\<close> at the start of \<open>s\<close>: the value of group 2.\<close>

definition match_suffix :: "string \<Rightarrow> string option" where
  "match_suffix s =
     (case match_op_version 2 s of Some v \<Rightarrow> Some v | None \<Rightarrow> match_op_version 1 s)"

text \<open>\<^verbatim>\<open>re.match(pattern, line)\<close>: \<open>None\<close> for no match, else the two groups.\<close>

definition re_match :: "string \<Rightarrow> (string \<times> string option) option" where
  "re_match line =
     (let n = takeWhile is_name_char line in
      if n = [] then None else Some (n, match_suffix (dropWhile is_name_char line)))"

text \<open>The body of the loop over the lines: the dependency the line adds, if any.\<close>

definition parse_line :: "string \<Rightarrow> Dependency option" where
  "parse_line raw =
     (let line = strip raw in
      if line = [] \<or> startswith line ''#'' then None
      else (case re_match line of
              None \<Rightarrow> None
            | Some (n, v) \<Rightarrow>
                Some \<lparr>name = n, version = (case v of Some ver \<Rightarrow> ver | None \<Rightarrow> ''latest'')\<rparr>))"

definition parse_requirements_txt :: "string \<Rightarrow> Dependency list" where
  "parse_requirements_txt file_content =
     List.map_filter parse_line (split (CHR 0x0A) file_content)"

subsection \<open>What the program takes from its runtime\<close>

text \<open>
  A \<^verbatim>\<open>datetime\<close> is a number of microseconds on the time line, naive or aware of a time
  zone; ordering a naive one against an aware one raises \<^verbatim>\<open>TypeError\<close>.
\<close>

datatype pydatetime = Naive int | Aware int

fun dt_less :: "pydatetime \<Rightarrow> pydatetime \<Rightarrow> py_error + bool" where
  "dt_less (Naive a) (Naive b) = Inr (a < b)"
| "dt_less (Aware a) (Aware b) = Inr (a < b)"
| "dt_less _ _ = Inl TypeError"

definition timedelta_days :: "int \<Rightarrow> int" where
  "timedelta_days n = n * 86400000000"

text \<open>
  The library functions the profiler calls and the clock it reads are parameters:
  \<^verbatim>\<open>json.loads\<close>, \<^verbatim>\<open>datetime.fromisoformat\<close>, the value of \<^verbatim>\<open>datetime.utcnow()\<close>, and what
  a \<^verbatim>\<open>str\<close> or an \<^verbatim>\<open>int\<close> field of a pydantic model makes of a value of another type
  (\<open>None\<close> where validation fails; this differs between the versions of pydantic).
\<close>

record runtime =
  json_loads :: "string \<Rightarrow> py_error + pyval"
  fromisoformat :: "string \<Rightarrow> py_error + pydatetime"
  utcnow :: int
  str_coerce :: "pyval \<Rightarrow> string option"
  int_coerce :: "pyval \<Rightarrow> int option"

text \<open>Validation of a \<^verbatim>\<open>str\<close> field and of an \<^verbatim>\<open>int\<close> field of a model.\<close>

definition str_field :: "runtime \<Rightarrow> pyval \<Rightarrow> py_error + string" where
  "str_field R v =
     (case v of
        PStr s \<Rightarrow> Inr s
      | _ \<Rightarrow> (case str_coerce R v of Some s \<Rightarrow> Inr s | None \<Rightarrow> Inl ValidationError))"

definition int_field :: "runtime \<Rightarrow> pyval \<Rightarrow> py_error + int" where
  "int_field R v =
     (case v of
        PInt n \<Rightarrow> Inr n
      | _ \<Rightarrow> (case int_coerce R v of Some n \<Rightarrow> Inr n | None \<Rightarrow> Inl ValidationError))"

text \<open>A \<^verbatim>\<open>for\<close> loop whose body may raise, over a state; and the same collecting results.\<close>

fun fold_err :: "('a \<Rightarrow> 's \<Rightarrow> 'e + 's) \<Rightarrow> 'a list \<Rightarrow> 's \<Rightarrow> 'e + 's" where
  "fold_err f [] s = Inr s"
| "fold_err f (x # xs) s = (case f x s of Inl e \<Rightarrow> Inl e | Inr s' \<Rightarrow> fold_err f xs s')"

fun map_err :: "('a \<Rightarrow> 'e + 'b) \<Rightarrow> 'a list \<Rightarrow> 'e + 'b list" where
  "map_err f [] = Inr []"
| "map_err f (x # xs) =
     (case f x of
        Inl e \<Rightarrow> Inl e
      | Inr y \<Rightarrow> (case map_err f xs of Inl e \<Rightarrow> Inl e | Inr ys \<Rightarrow> Inr (y # ys)))"

subsection \<open>\<^verbatim>\<open>parse_package_json\<close>\<close>

text \<open>\<^verbatim>\<open>x.get(k, default)\<close>: only a dictionary has the method.\<close>

definition py_get :: "pyval \<Rightarrow> string \<Rightarrow> pyval \<Rightarrow> py_error + pyval" where
  "py_get x k dflt = (case x of PDict d \<Rightarrow> Inr (dict_get d k dflt) | _ \<Rightarrow> Inl AttributeError)"

text \<open>The items of \<^verbatim>\<open>**x\<close> in a dictionary display: \<open>x\<close> must be a mapping.\<close>

definition mapping_items :: "pyval \<Rightarrow> py_error + pydict" where
  "mapping_items x = (case x of PDict d \<Rightarrow> Inr d | _ \<Rightarrow> Inl TypeError)"

text \<open>
  \<^verbatim>\<open>d[k] = v\<close>: a key that is present keeps its place and takes the new value, a new key
  goes to the end. \<^verbatim>\<open>{**deps, **dev_deps}\<close> stores the items of \<open>deps\<close>, then those of
  \<open>dev_deps\<close>, into an empty dictionary.
\<close>

definition dict_set :: "pydict \<Rightarrow> string \<times> pyval \<Rightarrow> pydict" where
  "dict_set d kv = AList.update (fst kv) (snd kv) d"

definition dict_merge :: "pydict \<Rightarrow> pydict \<Rightarrow> pydict" where
  "dict_merge deps dev_deps = foldl dict_set (foldl dict_set [] deps) dev_deps"

definition make_dependency :: "runtime \<Rightarrow> string \<times> pyval \<Rightarrow> py_error + Dependency" where
  "make_dependency R kv =
     then_do (str_field R (snd kv)) (\<lambda>ver. Inr \<lparr>name = fst kv, version = ver\<rparr>)"

definition parse_package_json :: "runtime \<Rightarrow> string \<Rightarrow> py_error + Dependency list" where
  "parse_package_json R file_content =
     (case json_loads R file_content of
        Inl e \<Rightarrow> if e = JSONDecodeError then Inr [] else Inl e
      | Inr data \<Rightarrow>
          then_do (py_get data ''dependencies'' (PDict [])) (\<lambda>deps.
          then_do (py_get data ''devDependencies'' (PDict [])) (\<lambda>dev_deps.
          then_do (mapping_items deps) (\<lambda>deps_items.
          then_do (mapping_items dev_deps) (\<lambda>dev_items.
          map_err (make_dependency R) (dict_merge deps_items dev_items))))))"

subsection \<open>\<^verbatim>\<open>analyze_dependencies\<close>\<close>

definition analyze_dependencies ::
  "runtime \<Rightarrow> (string \<times> string) list \<Rightarrow> py_error + DependencyAnalysis list" where
  "analyze_dependencies R file_contents =
     (let reports1 =
        (case map_of file_contents ''requirements.txt'' of
           None \<Rightarrow> []
         | Some content \<Rightarrow>
             (let deps = parse_requirements_txt content in
              if deps \<noteq> [] then [\<lparr>file = ''requirements.txt'', dependencies = deps\<rparr>] else []))
      in (case map_of file_contents ''package.json'' of
            None \<Rightarrow> Inr reports1
          | Some content \<Rightarrow>
              then_do (parse_package_json R content) (\<lambda>deps.
                Inr (if deps \<noteq> [] then reports1 @ [\<lparr>file = ''package.json'', dependencies = deps\<rparr>]
                     else reports1))))"

section \<open>Activity and trend analysis\<close>

text \<open>
  \<^verbatim>\<open>round(x, ndigits)\<close>: to the nearest multiple of \<open>10 ^ -ndigits\<close>, a tie to the even one.
\<close>

definition round_half_even :: "rat \<Rightarrow> int" where
  "round_half_even x =
     (let f = \<lfloor>x\<rfloor>; d = x - of_int f in
      if d < 1 / 2 then f else if 1 / 2 < d then f + 1 else if even f then f else f + 1)"

definition py_round :: "rat \<Rightarrow> nat \<Rightarrow> rat" where
  "py_round x ndigits = of_int (round_half_even (x * 10 ^ ndigits)) / 10 ^ ndigits"

text \<open>\<^verbatim>\<open>v.replace('Z', '')\<close> and \<^verbatim>\<open>datetime.fromisoformat\<close> of it.\<close>

definition replace_Z :: "pyval \<Rightarrow> py_error + string" where
  "replace_Z v =
     (case v of PStr s \<Rightarrow> Inr (filter (\<lambda>c. c \<noteq> CHR ''Z'') s) | _ \<Rightarrow> Inl AttributeError)"

definition parse_timestamp :: "runtime \<Rightarrow> pyval \<Rightarrow> py_error + pydatetime" where
  "parse_timestamp R v = then_do (replace_Z v) (fromisoformat R)"

text \<open>\<^verbatim>\<open>total_commits += week['total']\<close>\<close>

definition add_week :: "pydict \<Rightarrow> rat \<Rightarrow> py_error + rat" where
  "add_week week total_commits =
     then_do (getitem week ''total'') (\<lambda>v.
       case num_of v of None \<Rightarrow> Inl TypeError | Some x \<Rightarrow> Inr (total_commits + x))"

text \<open>The body of the loop over the issues; the state is the two counters.\<close>

definition count_issue ::
  "runtime \<Rightarrow> pydatetime \<Rightarrow> pydict \<Rightarrow> int \<times> int \<Rightarrow> py_error + int \<times> int" where
  "count_issue R thirty_days_ago issue counts =
     then_do (getitem issue ''created_at'') (\<lambda>cv.
     then_do (parse_timestamp R cv) (\<lambda>created_at.
     then_do (dt_less thirty_days_ago created_at) (\<lambda>is_new.
     let new_issues_count = (if is_new then fst counts + 1 else fst counts) in
     then_do (getitem issue ''closed_at'') (\<lambda>clv.
       if truthy clv then
         then_do (parse_timestamp R clv) (\<lambda>closed_at.
         then_do (dt_less thirty_days_ago closed_at) (\<lambda>is_closed.
           Inr (new_issues_count, if is_closed then snd counts + 1 else snd counts)))
       else Inr (new_issues_count, snd counts)))))"

definition calculate_activity_trends ::
  "runtime \<Rightarrow> pydict list \<Rightarrow> pydict list \<Rightarrow> py_error + ActivityTrends" where
  "calculate_activity_trends R commit_activity issues_list =
     then_do (if commit_activity \<noteq> []
              then then_do (fold_err add_week commit_activity 0) (\<lambda>total. Inr (total / 52))
              else Inr 0) (\<lambda>avg_commits.
     then_do (fold_err (count_issue R (Naive (utcnow R - timedelta_days 30))) issues_list (0, 0))
       (\<lambda>counts.
         Inr \<lparr>commits_per_week_avg = py_round avg_commits 2,
              new_issues = fst counts, closed_issues = snd counts\<rparr>))"

section \<open>Issue health analysis\<close>

text \<open>\<^verbatim>\<open>'bug' in label['name'].lower()\<close>\<close>

definition label_is_bug :: "pyval \<Rightarrow> py_error + bool" where
  "label_is_bug label =
     (case label of
        PDict d \<Rightarrow>
          then_do (getitem d ''name'') (\<lambda>nm.
            case nm of PStr s \<Rightarrow> Inr (contains (lower s) ''bug'') | _ \<Rightarrow> Inl AttributeError)
      | _ \<Rightarrow> Inl TypeError)"

text \<open>The loop over the labels, left at the first label that is a bug label.\<close>

fun any_bug_label :: "pyval list \<Rightarrow> py_error + bool" where
  "any_bug_label [] = Inr False"
| "any_bug_label (label # labels) =
     (case label_is_bug label of
        Inl e \<Rightarrow> Inl e
      | Inr b \<Rightarrow> if b then Inr True else any_bug_label labels)"

text \<open>
  What \<^verbatim>\<open>for label in issue['labels']\<close> iterates over: the elements of a list, the keys of
  a dictionary, the characters of a string; anything else is not iterable.
\<close>

definition iterate :: "pyval \<Rightarrow> py_error + pyval list" where
  "iterate v =
     (case v of
        PList xs \<Rightarrow> Inr xs
      | PDict d \<Rightarrow> Inr (map (\<lambda>kv. PStr (fst kv)) d)
      | PStr s \<Rightarrow> Inr (map (\<lambda>c. PStr [c]) s)
      | _ \<Rightarrow> Inl TypeError)"

text \<open>The body of the loop over the issues; the state is the three counters.\<close>

definition health_issue ::
  "runtime \<Rightarrow> pydatetime \<Rightarrow> pydict \<Rightarrow> int \<times> int \<times> int \<Rightarrow> py_error + int \<times> int \<times> int" where
  "health_issue R ninety_days_ago issue counts =
     (case counts of (total_open, stale, bug) \<Rightarrow>
       then_do (getitem issue ''state'') (\<lambda>st.
         if st = PStr ''open'' then
           then_do (getitem issue ''updated_at'') (\<lambda>uv.
           then_do (parse_timestamp R uv) (\<lambda>updated_at.
           then_do (dt_less updated_at ninety_days_ago) (\<lambda>is_stale.
           then_do (getitem issue ''labels'') (\<lambda>lv.
           then_do (iterate lv) (\<lambda>labels.
           then_do (any_bug_label labels) (\<lambda>is_bug.
             Inr (total_open + 1,
                  if is_stale then stale + 1 else stale,
                  if is_bug then bug + 1 else bug)))))))
         else Inr (total_open, stale, bug)))"

definition analyze_issue_health :: "runtime \<Rightarrow> pydict list \<Rightarrow> py_error + IssueHealth" where
  "analyze_issue_health R issues_list =
     then_do (fold_err (health_issue R (Naive (utcnow R - timedelta_days 90))) issues_list (0, 0, 0))
       (\<lambda>counts. case counts of (total_open, stale, bug) \<Rightarrow>
          Inr \<lparr>open_issues = total_open, stale_issues = stale, bug_issues = bug\<rparr>)"

section \<open>Contributor analysis\<close>

definition make_contributor :: "runtime \<Rightarrow> pydict \<Rightarrow> py_error + Contributor" where
  "make_contributor R contrib =
     then_do (getitem contrib ''login'') (\<lambda>login.
     then_do (getitem contrib ''contributions'') (\<lambda>contributions.
     then_do (str_field R login) (\<lambda>u.
     then_do (int_field R contributions) (\<lambda>n.
       Inr \<lparr>username = u, commits = n\<rparr>))))"

definition format_contributors :: "runtime \<Rightarrow> pydict list \<Rightarrow> py_error + Contributor list" where
  "format_contributors R contrib_data = map_err (make_contributor R) (take 5 contrib_data)"

section \<open>Overall scoring\<close>

text \<open>The \<^verbatim>\<open>try\<close> block on \<^verbatim>\<open>pushed_at\<close>: \<^verbatim>\<open>except Exception\<close> takes every error of its body.\<close>

definition push_step :: "runtime \<Rightarrow> pydict \<Rightarrow> rat \<Rightarrow> rat" where
  "push_step R repo_data score =
     (case then_do (getitem repo_data ''pushed_at'') (\<lambda>v.
           then_do (parse_timestamp R v) (\<lambda>last_push.
             dt_less last_push (Naive (utcnow R - timedelta_days 90)))) of
        Inl e \<Rightarrow> score - 10
      | Inr older \<Rightarrow> if older then score - 10 else score)"

definition commit_step :: "ActivityTrends \<Rightarrow> rat \<Rightarrow> rat" where
  "commit_step activity score =
     (if commits_per_week_avg activity < 1 then score - 20
      else if commits_per_week_avg activity < 5 then score - 10
      else score)"

text \<open>\<^verbatim>\<open>a / b\<close> on two \<^verbatim>\<open>int\<close>s.\<close>

definition truediv :: "int \<Rightarrow> int \<Rightarrow> py_error + rat" where
  "truediv a b = (if b = 0 then Inl ZeroDivisionError else Inr (of_int a / of_int b))"

definition issue_step :: "IssueHealth \<Rightarrow> rat \<Rightarrow> py_error + rat" where
  "issue_step issues score =
     (if open_issues issues > 0 then
        then_do (truediv (stale_issues issues) (open_issues issues)) (\<lambda>stale_ratio.
        then_do (truediv (bug_issues issues) (open_issues issues)) (\<lambda>bug_ratio.
          Inr (score - stale_ratio * 20 - bug_ratio * 20)))
      else Inr score)"

text \<open>\<^verbatim>\<open>repo_data.get('stargazers_count', 0) < 100\<close>: only a number is ordered against 100.\<close>

definition stars_step :: "pydict \<Rightarrow> rat \<Rightarrow> py_error + rat" where
  "stars_step repo_data score =
     (case num_of (dict_get repo_data ''stargazers_count'' (PInt 0)) of
        None \<Rightarrow> Inl TypeError
      | Some stars \<Rightarrow> Inr (if stars < 100 then score - 10 else score))"

definition license_step :: "pydict \<Rightarrow> rat \<Rightarrow> rat" where
  "license_step repo_data score =
     (if \<not> truthy (dict_get repo_data ''license'' PNone) then score - 10 else score)"

definition description_step :: "pydict \<Rightarrow> rat \<Rightarrow> rat" where
  "description_step repo_data score =
     (if \<not> truthy (dict_get repo_data ''description'' PNone) then score - 10 else score)"

text \<open>The score before the last line of the function, which rounds and floors it.\<close>

definition raw_score :: "runtime \<Rightarrow> pydict \<Rightarrow> ActivityTrends \<Rightarrow> IssueHealth \<Rightarrow> py_error + rat" where
  "raw_score R repo_data activity issues =
     then_do (issue_step issues (commit_step activity (push_step R repo_data 100))) (\<lambda>s3.
     then_do (stars_step repo_data s3) (\<lambda>s4.
       Inr (description_step repo_data (license_step repo_data s4))))"

definition calculate_health_score ::
  "runtime \<Rightarrow> pydict \<Rightarrow> ActivityTrends \<Rightarrow> IssueHealth \<Rightarrow> py_error + rat" where
  "calculate_health_score R repo_data activity issues =
     then_do (raw_score R repo_data activity issues) (\<lambda>score. Inr (max 0 (py_round score 2)))"

section \<open>Sample inputs\<close>

text \<open>
  A runtime for the examples. Its \<^verbatim>\<open>json.loads\<close> and \<^verbatim>\<open>fromisoformat\<close> are tables of
  what the library returns on the texts the examples use, and fail on every other
  text; the clock stands at 2024-06-01T00:00:00, in microseconds since 1970; the
  models coerce nothing.
\<close>

definition sample_package_json :: string where
  \<open>sample_package_json = ''{"dependencies": {"a": "1.0"}, "devDependencies": {"a": "2.0"}}''\<close>

definition sample_json_loads :: "string \<Rightarrow> py_error + pyval" where
  "sample_json_loads s =
     (if s = sample_package_json then
        Inr (PDict [(''dependencies'', PDict [(''a'', PStr ''1.0'')]),
                    (''devDependencies'', PDict [(''a'', PStr ''2.0'')])])
      else if s = ''[]'' then Inr (PList [])
      else Inl JSONDecodeError)"

definition sample_fromisoformat :: "string \<Rightarrow> py_error + pydatetime" where
  "sample_fromisoformat s =
     (if s = ''2024-02-22T00:00:00'' then Inr (Naive 1708560000000000)
      else if s = ''2024-05-22T00:00:00'' then Inr (Naive 1716336000000000)
      else Inl ValueError)"

definition sample_runtime :: runtime where
  "sample_runtime =
     \<lparr>json_loads = sample_json_loads, fromisoformat = sample_fromisoformat,
      utcnow = 1717200000000000, str_coerce = (\<lambda>v. None), int_coerce = (\<lambda>v. None)\<rparr>"

text \<open>An open issue last updated 100 days before the clock of the sample runtime.\<close>

definition stale_bug_issue :: pydict where
  "stale_bug_issue =
     [(''state'', PStr ''open''),
      (''created_at'', PStr ''2024-02-22T00:00:00Z''),
      (''closed_at'', PNone),
      (''updated_at'', PStr ''2024-02-22T00:00:00Z''),
      (''labels'', PList [PDict [(''name'', PStr ''Bug: crash'')]])]"

text \<open>The same issue, closed 10 days before the clock.\<close>

definition closed_issue :: pydict where
  "closed_issue =
     [(''state'', PStr ''closed''),
      (''created_at'', PStr ''2024-02-22T00:00:00Z''),
      (''closed_at'', PStr ''2024-05-22T00:00:00Z''),
      (''updated_at'', PStr ''2024-02-22T00:00:00Z''),
      (''labels'', PList [PDict [(''name'', PStr ''Bug: crash'')]])]"

text \<open>An open issue created and updated 10 days before the clock, with no label.\<close>

definition fresh_issue :: pydict where
  "fresh_issue =
     [(''state'', PStr ''open''),
      (''created_at'', PStr ''2024-05-22T00:00:00Z''),
      (''closed_at'', PNone),
      (''updated_at'', PStr ''2024-05-22T00:00:00Z''),
      (''labels'', PList [])]"

text \<open>A repository with a line-oriented manifest, a file that is no manifest, and a broken \<^verbatim>\<open>package.json\<close>.\<close>

definition sample_file_contents :: "(string \<times> string) list" where
  "sample_file_contents =
     [(''requirements.txt'', ''flask==2.0.1''), (''README.md'', ''flask''), (''package.json'', ''{not json'')]"

text \<open>Repository metadata and activity that draw no penalty under the sample runtime.\<close>

definition sample_repo :: pydict where
  "sample_repo =
     [(''pushed_at'', PStr ''2024-05-22T00:00:00Z''),
      (''stargazers_count'', PInt 250),
      (''license'', PDict [(''name'', PStr ''MIT'')]),
      (''description'', PStr ''A library'')]"

definition sample_activity :: ActivityTrends where
  "sample_activity = \<lparr>commits_per_week_avg = 6, new_issues = 0, closed_issues = 0\<rparr>"

text \<open>Activity that draws the full penalty.\<close>

definition idle_activity :: ActivityTrends where
  "idle_activity = \<lparr>commits_per_week_avg = 0, new_issues = 0, closed_issues = 0\<rparr>"

text \<open>The manifest of the specification's example: two dependencies, a comment, an empty line.\<close>

definition sample_requirements :: string where
  "sample_requirements =
     ''flask==2.0.1'' @ [CHR 0x0A] @ ''# comment'' @ [CHR 0x0A, CHR 0x0A] @ ''requests'' @ [CHR 0x0A]"

text \<open>
  Two texts that are no JSON documents and that \<^verbatim>\<open>json.loads\<close> leaves with another
  exception than \<^verbatim>\<open>JSONDecodeError\<close>: 100000 opening brackets, never closed, exceed the
  recursion limit of the decoder (\<^verbatim>\<open>RecursionError\<close>); an object that is not closed and
  whose value is a number of 5000 digits exceeds the limit on the digits of an \<^verbatim>\<open>int\<close>
  read from a string, where the interpreter has one, as Python 3.11 and later do
  (\<^verbatim>\<open>ValueError\<close>). The runtime with limits is the sample runtime with these two
  entries added to the table of \<^verbatim>\<open>json.loads\<close>.
\<close>

definition deeply_nested :: string where
  "deeply_nested = replicate 100000 (CHR ''['')"

definition long_number :: string where
  \<open>long_number = ''{"a": '' @ replicate 5000 (CHR ''1'')\<close>

definition limits_json_loads :: "string \<Rightarrow> py_error + pyval" where
  "limits_json_loads s =
     (if s = deeply_nested then Inl RecursionError
      else if s = long_number then Inl ValueError
      else sample_json_loads s)"

definition limits_runtime :: runtime where
  "limits_runtime = sample_runtime\<lparr>json_loads := limits_json_loads\<rparr>"

section \<open>Properties of the line-oriented parser\<close>

subsection \<open>Character classes\<close>

lemma is_word_not_space: "is_word c \<Longrightarrow> \<not> isspace c"
  by (auto simp: is_word_def isalnum_def isspace_def Let_def)

lemma name_char_not_space: "is_name_char c \<Longrightarrow> \<not> isspace c"
  by (auto simp: is_name_char_def isspace_def dest: is_word_not_space)

lemma version_char_not_space: "is_version_char c \<Longrightarrow> \<not> isspace c"
  by (auto simp: is_version_char_def isspace_def dest: is_word_not_space)

lemma op_char_not_space: "is_op_char c \<Longrightarrow> \<not> isspace c"
  by (auto simp: is_op_char_def isspace_def)

lemma op_char_not_name: "is_op_char c \<Longrightarrow> \<not> is_name_char c"
  by (auto simp: is_op_char_def is_name_char_def is_word_def isalnum_def)

lemma op_char_not_version: "is_op_char c \<Longrightarrow> \<not> is_version_char c"
  by (auto simp: is_op_char_def is_version_char_def is_word_def isalnum_def)

lemma strip_id: "s \<noteq> [] \<Longrightarrow> \<not> isspace (hd s) \<Longrightarrow> \<not> isspace (last s) \<Longrightarrow> strip s = s"
proof -
  assume a: "s \<noteq> []" "\<not> isspace (hd s)" "\<not> isspace (last s)"
  then have 1: "dropWhile isspace s = s" by (cases s) auto
  from a have "rev s \<noteq> []" "\<not> isspace (hd (rev s))" by (auto simp: hd_rev)
  then have "dropWhile isspace (rev s) = rev s" by (cases "rev s") auto
  with 1 show ?thesis by (simp add: strip_def)
qed

lemma split_acc_no_sep: "sep \<notin> set s \<Longrightarrow> split_acc sep cur s = [rev cur @ s]"
  by (induction s arbitrary: cur) auto

lemma split_no_sep: "sep \<notin> set s \<Longrightarrow> split sep s = [s]"
  by (simp add: split_def split_acc_no_sep)

lemma newline_not_name: "\<not> is_name_char (CHR 0x0A)"
  by (simp add: is_name_char_def is_word_def isalnum_def)
lemma hash_not_name: "\<not> is_name_char (CHR ''#'')"
  by (simp add: is_name_char_def is_word_def isalnum_def)

subsection \<open>The pattern on a name followed by a suffix\<close>

lemma re_match_name_rest:
  assumes "n \<noteq> []" "\<forall>c \<in> set n. is_name_char c" "rest = [] \<or> \<not> is_name_char (hd rest)"
  shows "re_match (n @ rest) = Some (n, match_suffix rest)"
proof -
  from assms(3) have t: "takeWhile is_name_char rest = []" and d: "dropWhile is_name_char rest = rest"
    by (cases rest; auto)+
  from assms(2) have "takeWhile is_name_char (n @ rest) = n @ takeWhile is_name_char rest"
    and "dropWhile is_name_char (n @ rest) = dropWhile is_name_char rest"
    by simp_all
  with t d assms(1) show ?thesis by (simp add: re_match_def)
qed

lemma parse_line_name_rest:
  assumes "n \<noteq> []" "\<forall>c \<in> set n. is_name_char c"
    and "rest = [] \<or> (\<not> is_name_char (hd rest) \<and> \<not> isspace (last rest))"
  shows "parse_line (n @ rest) =
    Some \<lparr>name = n, version = (case match_suffix rest of Some ver \<Rightarrow> ver | None \<Rightarrow> ''latest'')\<rparr>"
proof -
  from assms(1,2) have hn: "is_name_char (hd n)" and ln: "is_name_char (last n)" by auto
  have "\<not> isspace (hd (n @ rest))" using assms(1) hn by (simp add: name_char_not_space)
  moreover have "\<not> isspace (last (n @ rest))"
    using assms(1,3) ln by (cases "rest = []") (auto simp: name_char_not_space)
  ultimately have s: "strip (n @ rest) = n @ rest" using assms(1) by (intro strip_id) auto
  have h: "\<not> startswith (n @ rest) ''#''"
    using assms(1) hn hash_not_name by (cases n) (auto simp: startswith_def)
  have "re_match (n @ rest) = Some (n, match_suffix rest)"
    using assms by (intro re_match_name_rest) auto
  with s h assms(1) show ?thesis by (simp add: parse_line_def)
qed

lemma match_version_all:
  "v \<noteq> [] \<Longrightarrow> \<forall>c \<in> set v. is_version_char c \<Longrightarrow> match_version v = Some v"
proof -
  assume "v \<noteq> []" "\<forall>c \<in> set v. is_version_char c"
  then have tw: "takeWhile is_version_char v = v" by simp
  show ?thesis unfolding match_version_def Let_def tw using \<open>v \<noteq> []\<close> by simp
qed

lemma match_version_none:
  "s = [] \<or> \<not> is_version_char (hd s) \<Longrightarrow> match_version s = None"
  by (cases s) (auto simp: match_version_def)

lemma match_suffix_op_version:
  assumes "op \<noteq> []" "length op \<le> 2" "\<forall>c \<in> set op. is_op_char c"
    and "v \<noteq> []" "\<forall>c \<in> set v. is_version_char c"
  shows "match_suffix (op @ v) = Some v"
proof -
  from assms(1,2) consider a where "op = [a]" | a b where "op = [a, b]"
    by (cases op; simp) (metis length_0_conv length_Suc_conv le_Suc_eq le_0_eq)
  then show ?thesis
  proof cases
    case 1
    from assms(4,5) have "\<not> is_op_char (hd v)" using op_char_not_version by (cases v) auto
    with 1 assms show ?thesis
      by (cases v) (auto simp: match_suffix_def match_op_version_def match_version_all)
  next
    case 2
    with assms show ?thesis
      by (auto simp: match_suffix_def match_op_version_def match_version_all)
  qed
qed

lemma match_suffix_no_version:
  assumes "\<forall>c \<in> set s. \<not> is_version_char c"
  shows "match_suffix s = None"
proof -
  have "match_version (drop k s) = None" for k
    using assms by (intro match_version_none) (metis hd_in_set in_set_dropD)
  then show ?thesis by (simp add: match_suffix_def match_op_version_def)
qed

lemma newline_not_version: "\<not> is_version_char (CHR 0x0A)"
  by (simp add: is_version_char_def is_word_def isalnum_def)

lemma newline_not_op: "\<not> is_op_char (CHR 0x0A)"
  by (simp add: is_op_char_def)

lemma set_map_filter: "set (List.map_filter f xs) = {y. \<exists>x \<in> set xs. f x = Some y}"
  by (induction xs) (auto simp: List.map_filter_def)

lemma parse_requirements_txt_single:
  "CHR 0x0A \<notin> set s \<Longrightarrow> parse_requirements_txt s = (case parse_line s of None \<Rightarrow> [] | Some d \<Rightarrow> [d])"
  by (simp add: parse_requirements_txt_def split_no_sep List.map_filter_def split: option.splits)

lemma parse_requirements_txt_line:
  "line \<in> set (split (CHR 0x0A) content) \<Longrightarrow> parse_line line = Some d
   \<Longrightarrow> d \<in> set (parse_requirements_txt content)"
  by (auto simp: parse_requirements_txt_def set_map_filter)

lemma cmp_char_props:
  "c \<in> set ''=~><'' \<Longrightarrow>
     \<not> is_name_char c \<and> \<not> is_version_char c \<and> \<not> isspace c \<and> c \<noteq> CHR 0x0A"
  by (auto simp: is_name_char_def is_version_char_def is_word_def isalnum_def isspace_def)

subsection \<open>Lines with an operator and a version\<close>

text \<open>
  Claim C4, as the code has it. A line made of a package name (characters of
  \<^verbatim>\<open>[\w\-]\<close>), then one or two operator characters out of \<^verbatim>\<open>=\<close>, \<^verbatim>\<open>~\<close>, \<^verbatim>\<open>>\<close> (so
  \<^verbatim>\<open>==\<close>, \<^verbatim>\<open>~=\<close>, \<^verbatim>\<open>>=\<close>, \<^verbatim>\<open>=\<close> and \<^verbatim>\<open>>\<close> among others), then a version (characters of
  \<^verbatim>\<open>[\w\.]\<close>) yields the dependency with that name and that version, alone or as a line
  of a longer manifest; the name alone yields the version \<^verbatim>\<open>latest\<close>. The character
  \<^verbatim>\<open><\<close> is not an operator character of the pattern.
\<close>

theorem parse_line_operator_version:
  assumes "n \<noteq> []" "\<forall>c \<in> set n. is_name_char c"
    and "op \<noteq> []" "length op \<le> 2" "\<forall>c \<in> set op. is_op_char c"
    and "v \<noteq> []" "\<forall>c \<in> set v. is_version_char c"
  shows "parse_line (n @ op @ v) = Some \<lparr>name = n, version = v\<rparr>
       \<and> parse_requirements_txt (n @ op @ v) = [\<lparr>name = n, version = v\<rparr>]
       \<and> (\<forall>content. n @ op @ v \<in> set (split (CHR 0x0A) content) \<longrightarrow>
             \<lparr>name = n, version = v\<rparr> \<in> set (parse_requirements_txt content))
       \<and> parse_line n = Some \<lparr>name = n, version = ''latest''\<rparr>
       \<and> parse_requirements_txt n = [\<lparr>name = n, version = ''latest''\<rparr>]
       \<and> (\<forall>content. n \<in> set (split (CHR 0x0A) content) \<longrightarrow>
             \<lparr>name = n, version = ''latest''\<rparr> \<in> set (parse_requirements_txt content))"
proof -
  have hd_op: "\<not> is_name_char (hd (op @ v))"
    using assms(3,5) op_char_not_name by (cases op) auto
  have last_v: "\<not> isspace (last (op @ v))"
    using assms(6,7) version_char_not_space by (simp add: last_append)
  have "parse_line (n @ op @ v) = Some \<lparr>name = n,
      version = (case match_suffix (op @ v) of Some ver \<Rightarrow> ver | None \<Rightarrow> ''latest'')\<rparr>"
    using assms(1,2) hd_op last_v by (intro parse_line_name_rest) auto
  then have full: "parse_line (n @ op @ v) = Some \<lparr>name = n, version = v\<rparr>"
    using assms(3-7) by (simp add: match_suffix_op_version)
  have "parse_line (n @ []) = Some \<lparr>name = n,
      version = (case match_suffix [] of Some ver \<Rightarrow> ver | None \<Rightarrow> ''latest'')\<rparr>"
    using assms(1,2) by (intro parse_line_name_rest) auto
  then have bare: "parse_line n = Some \<lparr>name = n, version = ''latest''\<rparr>"
    by (simp add: match_suffix_no_version)
  have nl_n: "CHR 0x0A \<notin> set n" using assms(2) newline_not_name by auto
  have nl: "CHR 0x0A \<notin> set (n @ op @ v)"
    using assms(2,5,7) newline_not_name newline_not_op newline_not_version by auto
  show ?thesis
    using full bare nl nl_n
    by (auto simp: parse_requirements_txt_single intro: parse_requirements_txt_line)
qed

subsection \<open>Lines with an operator and no version\<close>

text \<open>
  Claim C10. A line made of a package name and one of the comparison operators
  \<^verbatim>\<open>==\<close>, \<^verbatim>\<open>~=\<close>, \<^verbatim>\<open>>=\<close>, \<^verbatim>\<open><=\<close>, \<^verbatim>\<open>=\<close>, \<^verbatim>\<open>>\<close>, \<^verbatim>\<open><\<close> with nothing after it (such as
  \<^verbatim>\<open>flask==\<close>) yields the dependency with that name and the version \<^verbatim>\<open>latest\<close>, exactly
  what the name alone yields.
\<close>

theorem parse_line_operator_only:
  assumes "n \<noteq> []" "\<forall>c \<in> set n. is_name_char c"
    and "op \<in> set [''=='', ''~='', ''>='', ''<='', ''='', ''>'', ''<'']"
  shows "parse_line (n @ op) = Some \<lparr>name = n, version = ''latest''\<rparr>
       \<and> parse_line (n @ op) = parse_line n
       \<and> parse_requirements_txt (n @ op) = [\<lparr>name = n, version = ''latest''\<rparr>]
       \<and> (\<forall>content. n @ op \<in> set (split (CHR 0x0A) content) \<longrightarrow>
             \<lparr>name = n, version = ''latest''\<rparr> \<in> set (parse_requirements_txt content))"
proof -
  from assms(3) have ne: "op \<noteq> []" and cs: "\<forall>c \<in> set op. c \<in> set ''=~><''" by auto
  then have props: "\<forall>c \<in> set op. \<not> is_name_char c \<and> \<not> is_version_char c \<and> \<not> isspace c \<and> c \<noteq> CHR 0x0A"
    using cmp_char_props by blast
  have "parse_line (n @ op) = Some \<lparr>name = n,
      version = (case match_suffix op of Some ver \<Rightarrow> ver | None \<Rightarrow> ''latest'')\<rparr>"
    using assms(1,2) ne props by (intro parse_line_name_rest) auto
  then have full: "parse_line (n @ op) = Some \<lparr>name = n, version = ''latest''\<rparr>"
    using props by (simp add: match_suffix_no_version)
  have "parse_line (n @ []) = Some \<lparr>name = n,
      version = (case match_suffix [] of Some ver \<Rightarrow> ver | None \<Rightarrow> ''latest'')\<rparr>"
    using assms(1,2) by (intro parse_line_name_rest) auto
  then have bare: "parse_line n = Some \<lparr>name = n, version = ''latest''\<rparr>"
    by (simp add: match_suffix_no_version)
  have nl: "CHR 0x0A \<notin> set (n @ op)"
    using assms(2) props newline_not_name by auto
  show ?thesis
    using full bare nl
    by (auto simp: parse_requirements_txt_single intro: parse_requirements_txt_line)
qed

lemma name_flask: "\<forall>c \<in> set ''flask''. is_name_char c"
  by (simp add: is_name_char_def is_word_def isalnum_def)

theorem parse_line_operator_version_witness:
  "parse_line ''flask==2.0.1'' = Some \<lparr>name = ''flask'', version = ''2.0.1''\<rparr>
   \<and> parse_requirements_txt ''flask==2.0.1'' = [\<lparr>name = ''flask'', version = ''2.0.1''\<rparr>]
   \<and> \<lparr>name = ''flask'', version = ''2.0.1''\<rparr> \<in> set (parse_requirements_txt sample_requirements)
   \<and> parse_line ''flask'' = Some \<lparr>name = ''flask'', version = ''latest''\<rparr>"
proof -
  have v: "\<forall>c \<in> set ''2.0.1''. is_version_char c"
    by (simp add: is_version_char_def is_word_def isalnum_def)
  have o: "\<forall>c \<in> set ''==''. is_op_char c" by (simp add: is_op_char_def)
  have l: "''flask'' @ ''=='' @ ''2.0.1'' \<in> set (split (CHR 0x0A) sample_requirements)"
    by (simp add: sample_requirements_def split_def)
  show ?thesis
    using parse_line_operator_version [of "''flask''" "''==''" "''2.0.1''"] name_flask v o l
    by simp
qed

theorem parse_line_operator_only_witness:
  "parse_line ''flask=='' = Some \<lparr>name = ''flask'', version = ''latest''\<rparr>
   \<and> parse_requirements_txt ''flask=='' = [\<lparr>name = ''flask'', version = ''latest''\<rparr>]"
  using parse_line_operator_only [of "''flask''" "''==''"] name_flask by simp

text \<open>
  Claim C4 as stated lists \<^verbatim>\<open><=\<close> and \<^verbatim>\<open><\<close> among the operators. On \<^verbatim>\<open>flask<=2.0\<close> the
  optional part of the pattern does not match, and the version is \<^verbatim>\<open>latest\<close>, not
  \<^verbatim>\<open>2.0\<close>.
\<close>

theorem parse_line_less_equal_counterexample:
  "parse_requirements_txt ''flask<=2.0'' = [\<lparr>name = ''flask'', version = ''latest''\<rparr>]
   \<and> \<lparr>name = ''flask'', version = ''2.0''\<rparr> \<notin> set (parse_requirements_txt ''flask<=2.0'')
   \<and> parse_requirements_txt ''flask<2.0'' = [\<lparr>name = ''flask'', version = ''latest''\<rparr>]"
proof -
  have a: "parse_requirements_txt ''flask<=2.0'' = [\<lparr>name = ''flask'', version = ''latest''\<rparr>]"
    by code_simp
  have b: "parse_requirements_txt ''flask<2.0'' = [\<lparr>name = ''flask'', version = ''latest''\<rparr>]"
    by code_simp
  show ?thesis unfolding a b by simp
qed

section \<open>Properties of the structured-document parser and the aggregator\<close>

subsection \<open>Sequencing and dictionary updates\<close>

lemma then_do_Inr [simp]: "then_do (Inr x) f = f x"
  by (simp add: then_do_def)

lemma then_do_Inl [simp]: "then_do (Inl e) f = Inl e"
  by (simp add: then_do_def)

lemma then_do_eq_Inr:
  "then_do m f = Inr y \<longleftrightarrow> (\<exists>x. m = Inr x \<and> f x = Inr y)"
  by (cases m) auto

lemma map_of_dict_set: "map_of (dict_set d kv) = (map_of d)(fst kv \<mapsto> snd kv)"
  by (simp add: dict_set_def AList.update_conv')

lemma distinct_dict_set: "distinct (map fst d) \<Longrightarrow> distinct (map fst (dict_set d kv))"
  by (simp add: dict_set_def AList.distinct_update)

lemma set_update_subset: "set (AList.update k v al) \<subseteq> insert (k, v) (set al)"
  by (induction al) auto

lemma set_dict_set: "set (dict_set d kv) \<subseteq> insert kv (set d)"
  using set_update_subset [of "fst kv" "snd kv" d] by (simp add: dict_set_def)

lemma distinct_foldl_dict_set:
  "distinct (map fst d) \<Longrightarrow> distinct (map fst (foldl dict_set d xs))"
  by (induction xs arbitrary: d) (simp_all add: distinct_dict_set)

lemma set_foldl_dict_set: "set (foldl dict_set d xs) \<subseteq> set d \<union> set xs"
proof (induction xs arbitrary: d)
  case Nil
  show ?case by simp
next
  case (Cons kv xs)
  have "set (foldl dict_set (dict_set d kv) xs) \<subseteq> set (dict_set d kv) \<union> set xs"
    by (rule Cons.IH)
  with set_dict_set [of d kv] show ?case by auto
qed

lemma map_of_foldl_dict_set_other:
  "n \<notin> fst ` set xs \<Longrightarrow> map_of (foldl dict_set d xs) n = map_of d n"
  by (induction xs arbitrary: d) (auto simp: map_of_dict_set)

lemma map_of_foldl_dict_set_in:
  "distinct (map fst xs) \<Longrightarrow> map_of xs n = Some v \<Longrightarrow> map_of (foldl dict_set d xs) n = Some v"
proof (induction xs arbitrary: d)
  case Nil
  then show ?case by simp
next
  case (Cons kv xs)
  show ?case
  proof (cases "fst kv = n")
    case True
    with Cons.prems have "snd kv = v" and "n \<notin> fst ` set xs" by auto
    then show ?thesis using True
      by (simp add: map_of_foldl_dict_set_other map_of_dict_set)
  next
    case False
    with Cons.prems have "distinct (map fst xs)" and "map_of xs n = Some v" by auto
    then show ?thesis by (simp add: Cons.IH)
  qed
qed

lemma distinct_dict_merge: "distinct (map fst (dict_merge a b))"
  by (simp add: dict_merge_def distinct_foldl_dict_set)

lemma set_dict_merge: "set (dict_merge a b) \<subseteq> set a \<union> set b"
  using set_foldl_dict_set [of "foldl dict_set [] a" b] set_foldl_dict_set [of "[]" a]
  by (auto simp: dict_merge_def)

lemma map_of_dict_merge_dev:
  "distinct (map fst b) \<Longrightarrow> map_of b n = Some v \<Longrightarrow> map_of (dict_merge a b) n = Some v"
  by (simp add: dict_merge_def map_of_foldl_dict_set_in)

lemma filter_key_distinct:
  "distinct (map fst d) \<Longrightarrow> map_of d n = Some x \<Longrightarrow> filter (\<lambda>kv. fst kv = n) d = [(n, x)]"
proof (induction d)
  case Nil
  then show ?case by simp
next
  case (Cons kv d)
  show ?case
  proof (cases "fst kv = n")
    case True
    with Cons.prems have "kv = (n, x)" and "n \<notin> fst ` set d" by (auto simp: prod_eq_iff)
    then have "filter (\<lambda>kv. fst kv = n) d = []" by (auto simp: filter_empty_conv)
    with \<open>kv = (n, x)\<close> show ?thesis by simp
  next
    case False
    with Cons show ?thesis by auto
  qed
qed

lemma map_err_make_dependency:
  assumes "\<forall>kv \<in> set d. \<exists>s. snd kv = PStr s"
  shows "\<exists>ds. map_err (make_dependency R) d = Inr ds
       \<and> map name ds = map fst d
       \<and> map (\<lambda>x. PStr (version x)) ds = map snd d"
  using assms
proof (induction d)
  case Nil
  show ?case by simp
next
  case (Cons kv d)
  then obtain ds where ds: "map_err (make_dependency R) d = Inr ds"
    "map name ds = map fst d" "map (\<lambda>x. PStr (version x)) ds = map snd d" by auto
  from Cons.prems obtain s where s: "snd kv = PStr s" by auto
  then have "make_dependency R kv = Inr \<lparr>name = fst kv, version = s\<rparr>"
    by (simp add: make_dependency_def str_field_def)
  with ds s show ?case by simp
qed

lemma filter_name_entry:
  assumes "map name ds = map fst d" "map (\<lambda>x. PStr (version x)) ds = map snd d"
    and "filter (\<lambda>kv. fst kv = n) d = [(n, PStr v)]"
  shows "filter (\<lambda>x. name x = n) ds = [\<lparr>name = n, version = v\<rparr>]"
  using assms
proof (induction ds arbitrary: d)
  case Nil
  then show ?case by simp
next
  case (Cons x ds)
  then obtain kv d' where d: "d = kv # d'" by (cases d) auto
  with Cons.prems have x: "name x = fst kv" "PStr (version x) = snd kv"
    and rest: "map name ds = map fst d'" "map (\<lambda>x. PStr (version x)) ds = map snd d'" by auto
  show ?case
  proof (cases "fst kv = n")
    case True
    with Cons.prems(3) d have kv: "kv = (n, PStr v)" and e: "filter (\<lambda>kv. fst kv = n) d' = []"
      by auto
    have "set (map name ds) = set (map fst d')" using rest(1) by simp
    then have names: "name ` set ds = fst ` set d'" by simp
    from e have "n \<notin> fst ` set d'" by (auto simp: filter_empty_conv)
    with names have "filter (\<lambda>x. name x = n) ds = []"
      by (auto simp: filter_empty_conv)
    moreover from x kv have "x = \<lparr>name = n, version = v\<rparr>" by (cases x) auto
    ultimately show ?thesis by simp
  next
    case False
    with Cons.prems(3) d have "filter (\<lambda>kv. fst kv = n) d' = [(n, PStr v)]" by simp
    with Cons.IH rest have "filter (\<lambda>x. name x = n) ds = [\<lparr>name = n, version = v\<rparr>]" by blast
    with False x show ?thesis by simp
  qed
qed

subsection \<open>The claims\<close>

text \<open>
  The \<^verbatim>\<open>except\<close> clause of the parser names \<^verbatim>\<open>json.JSONDecodeError\<close>: that exception of
  \<^verbatim>\<open>json.loads\<close> gives the empty list, every other one leaves the parser as it is.
\<close>

lemma parse_package_json_decode_error:
  "json_loads R file_content = Inl JSONDecodeError \<Longrightarrow> parse_package_json R file_content = Inr []"
  by (simp add: parse_package_json_def)

lemma parse_package_json_other_error:
  "json_loads R file_content = Inl e \<Longrightarrow> e \<noteq> JSONDecodeError
   \<Longrightarrow> parse_package_json R file_content = Inl e"
  by (simp add: parse_package_json_def)

lemma length_limit_texts: "length deeply_nested = 100000" "length long_number = 5006"
  by (simp_all add: deeply_nested_def long_number_def)

lemma differ_by_length: "length a \<noteq> length b \<Longrightarrow> a \<noteq> b"
  by auto

lemma limit_texts_differ:
  "long_number \<noteq> deeply_nested" "''{not json'' \<noteq> deeply_nested" "''{not json'' \<noteq> long_number"
  by (rule differ_by_length, simp add: length_limit_texts)+

text \<open>
  Claim C5 says that on every text that is no well-formed document the parser returns
  the empty list and raises nothing. It does so on \<^verbatim>\<open>{not json\<close>, which \<^verbatim>\<open>json.loads\<close>
  rejects with \<^verbatim>\<open>JSONDecodeError\<close>. It does not on 100000 opening brackets that are never
  closed, nor on an object that is not closed and holds a number of 5000 digits: there
  \<^verbatim>\<open>json.loads\<close> raises \<^verbatim>\<open>RecursionError\<close> and \<^verbatim>\<open>ValueError\<close>, the clause does not take
  them, and the caller gets the exception.
\<close>

theorem parse_package_json_raises_on_malformed_text:
  "json_loads limits_runtime deeply_nested = Inl RecursionError
   \<and> parse_package_json limits_runtime deeply_nested = Inl RecursionError
   \<and> json_loads limits_runtime long_number = Inl ValueError
   \<and> parse_package_json limits_runtime long_number = Inl ValueError
   \<and> json_loads limits_runtime ''{not json'' = Inl JSONDecodeError
   \<and> parse_package_json limits_runtime ''{not json'' = Inr []"
proof -
  have a: "json_loads limits_runtime deeply_nested = Inl RecursionError"
    by (simp add: limits_runtime_def limits_json_loads_def)
  have b: "json_loads limits_runtime long_number = Inl ValueError"
    by (simp add: limits_runtime_def limits_json_loads_def limit_texts_differ)
  have c: "json_loads limits_runtime ''{not json'' = Inl JSONDecodeError"
    by (simp add: limits_runtime_def limits_json_loads_def limit_texts_differ
        sample_json_loads_def sample_package_json_def)
  from a have a': "parse_package_json limits_runtime deeply_nested = Inl RecursionError"
    by (rule parse_package_json_other_error) simp
  from b have b': "parse_package_json limits_runtime long_number = Inl ValueError"
    by (rule parse_package_json_other_error) simp
  from c have c': "parse_package_json limits_runtime ''{not json'' = Inr []"
    by (rule parse_package_json_decode_error)
  from a a' b b' c c' show ?thesis by simp
qed

text \<open>
  Claim C6. For a manifest that decodes to a dictionary with the two mappings, all of
  whose values are strings, and a name that both mappings contain, the parser returns
  a list with exactly one dependency of that name, and its version is the one of the
  development dependencies. On \<^verbatim>\<open>{"a": "1.0"}\<close> and \<^verbatim>\<open>{"a": "2.0"}\<close> the result is \<open>a\<close> at
  \<^verbatim>\<open>2.0\<close>.
\<close>

theorem parse_package_json_dev_overrides:
  assumes "json_loads R file_content = Inr (PDict data)"
    and "map_of data ''dependencies'' = Some (PDict deps)"
    and "map_of data ''devDependencies'' = Some (PDict dev_deps)"
    and "distinct (map fst dev_deps)"
    and "\<forall>kv \<in> set deps \<union> set dev_deps. \<exists>s. snd kv = PStr s"
    and "n \<in> fst ` set deps"
    and "map_of dev_deps n = Some (PStr v)"
  shows "\<exists>ds. parse_package_json R file_content = Inr ds
       \<and> filter (\<lambda>d. name d = n) ds = [\<lparr>name = n, version = v\<rparr>]"
proof -
  let ?m = "dict_merge deps dev_deps"
  have p: "parse_package_json R file_content = map_err (make_dependency R) ?m"
    using assms(1-3)
    by (simp add: parse_package_json_def py_get_def dict_get_def mapping_items_def)
  have "\<forall>kv \<in> set ?m. \<exists>s. snd kv = PStr s"
    using assms(5) set_dict_merge [of deps dev_deps] by blast
  then obtain ds where ds: "map_err (make_dependency R) ?m = Inr ds"
    "map name ds = map fst ?m" "map (\<lambda>x. PStr (version x)) ds = map snd ?m"
    using map_err_make_dependency by blast
  have "map_of ?m n = Some (PStr v)"
    using assms(4,7) by (rule map_of_dict_merge_dev)
  then have "filter (\<lambda>kv. fst kv = n) ?m = [(n, PStr v)]"
    using distinct_dict_merge by (rule filter_key_distinct [rotated])
  with ds(2,3) have "filter (\<lambda>d. name d = n) ds = [\<lparr>name = n, version = v\<rparr>]"
    by (rule filter_name_entry)
  with p ds(1) show ?thesis by simp
qed

theorem parse_package_json_dev_overrides_witness:
  "parse_package_json sample_runtime sample_package_json = Inr [\<lparr>name = ''a'', version = ''2.0''\<rparr>]"
proof -
  have l: "json_loads sample_runtime sample_package_json =
      Inr (PDict [(''dependencies'', PDict [(''a'', PStr ''1.0'')]),
                  (''devDependencies'', PDict [(''a'', PStr ''2.0'')])])"
    by (simp add: sample_runtime_def sample_json_loads_def)
  have e: "parse_package_json sample_runtime sample_package_json = Inr [\<lparr>name = ''a'', version = ''2.0''\<rparr>]"
    by (simp add: parse_package_json_def l py_get_def dict_get_def mapping_items_def dict_merge_def
        dict_set_def make_dependency_def str_field_def)
  from parse_package_json_dev_overrides [OF l, of "[(''a'', PStr ''1.0'')]" "[(''a'', PStr ''2.0'')]" "''a''" "''2.0''"]
  have "\<exists>ds. parse_package_json sample_runtime sample_package_json = Inr ds
       \<and> filter (\<lambda>d. name d = ''a'') ds = [\<lparr>name = ''a'', version = ''2.0''\<rparr>]"
    by simp
  with e show ?thesis by simp
qed

text \<open>
  Claim C9. Every report that \<^verbatim>\<open>analyze_dependencies\<close> returns has a non-empty list of
  dependencies; a recognised manifest whose text parses to no dependency gets no
  report.
\<close>

theorem analyze_dependencies_nonempty:
  assumes "analyze_dependencies R file_contents = Inr reports"
  shows "(\<forall>r \<in> set reports. dependencies r \<noteq> [])
       \<and> (\<forall>content. map_of file_contents ''requirements.txt'' = Some content
             \<and> parse_requirements_txt content = [] \<longrightarrow> ''requirements.txt'' \<notin> file ` set reports)
       \<and> (\<forall>content. map_of file_contents ''package.json'' = Some content
             \<and> parse_package_json R content = Inr [] \<longrightarrow> ''package.json'' \<notin> file ` set reports)"
  using assms
  by (auto simp: analyze_dependencies_def Let_def then_do_eq_Inr
      split: option.splits if_splits)

theorem analyze_dependencies_nonempty_witness:
  "analyze_dependencies sample_runtime sample_file_contents =
     Inr [\<lparr>file = ''requirements.txt'', dependencies = [\<lparr>name = ''flask'', version = ''2.0.1''\<rparr>]\<rparr>]
   \<and> parse_package_json sample_runtime ''{not json'' = Inr []
   \<and> dependencies \<lparr>file = ''requirements.txt'', dependencies = [\<lparr>name = ''flask'', version = ''2.0.1''\<rparr>]\<rparr> \<noteq> []
   \<and> ''package.json'' \<notin> file ` set [\<lparr>file = ''requirements.txt'', dependencies = [\<lparr>name = ''flask'', version = ''2.0.1''\<rparr>]\<rparr>]"
proof -
  have j: "parse_package_json sample_runtime ''{not json'' = Inr []"
    by (simp add: parse_package_json_def sample_runtime_def sample_json_loads_def sample_package_json_def)
  have r: "parse_requirements_txt ''flask==2.0.1'' = [\<lparr>name = ''flask'', version = ''2.0.1''\<rparr>]"
    by code_simp
  have a: "analyze_dependencies sample_runtime sample_file_contents =
     Inr [\<lparr>file = ''requirements.txt'', dependencies = [\<lparr>name = ''flask'', version = ''2.0.1''\<rparr>]\<rparr>]"
    by (simp add: analyze_dependencies_def sample_file_contents_def j r)
  show ?thesis
    using analyze_dependencies_nonempty [OF a] j a
    by (simp add: sample_file_contents_def)
qed

section \<open>Properties of the health scorer\<close>

subsection \<open>Rounding and the bounds of each step\<close>

lemma round_half_even_cases: "round_half_even x = \<lfloor>x\<rfloor> \<or> (round_half_even x = \<lfloor>x\<rfloor> + 1 \<and> of_int \<lfloor>x\<rfloor> < x)"
  by (auto simp: round_half_even_def Let_def)

lemma round_half_even_ge: "of_int k \<le> x \<Longrightarrow> k \<le> round_half_even x"
proof -
  assume "of_int k \<le> x"
  then have "k \<le> \<lfloor>x\<rfloor>" by (simp add: le_floor_iff)
  with round_half_even_cases [of x] show ?thesis by auto
qed

lemma round_half_even_le: "x \<le> of_int k \<Longrightarrow> round_half_even x \<le> k"
proof -
  assume a: "x \<le> of_int k"
  then have f: "\<lfloor>x\<rfloor> \<le> k" by (simp add: floor_le_iff) 
  show ?thesis
  proof (cases "round_half_even x = \<lfloor>x\<rfloor>")
    case True
    with f show ?thesis by simp
  next
    case False
    with round_half_even_cases [of x] have r: "round_half_even x = \<lfloor>x\<rfloor> + 1" and lt: "of_int \<lfloor>x\<rfloor> < x"
      by auto
    from lt a have "(of_int \<lfloor>x\<rfloor> :: rat) < of_int k" by simp
    then have "\<lfloor>x\<rfloor> < k" by simp
    with r show ?thesis by simp
  qed
qed

lemma py_round_2_nonneg: "0 \<le> r \<Longrightarrow> 0 \<le> py_round r 2"
proof -
  assume "0 \<le> r"
  then have "of_int 0 \<le> r * 10 ^ 2" by simp
  then have "0 \<le> round_half_even (r * 10 ^ 2)" by (rule round_half_even_ge)
  then show ?thesis by (simp add: py_round_def)
qed

lemma py_round_2_le_100: "r \<le> 100 \<Longrightarrow> py_round r 2 \<le> 100"
proof -
  assume "r \<le> 100"
  then have "r * 10 ^ 2 \<le> of_int 10000" by simp
  then have "round_half_even (r * 10 ^ 2) \<le> 10000" by (rule round_half_even_le)
  then have "(of_int (round_half_even (r * 10 ^ 2)) :: rat) \<le> of_int 10000"
    by (simp only: of_int_le_iff)
  then show ?thesis by (simp add: py_round_def)
qed

lemma py_round_2_nonpos: "r \<le> 0 \<Longrightarrow> py_round r 2 \<le> 0"
proof -
  assume "r \<le> 0"
  then have "r * 10 ^ 2 \<le> of_int 0" by (simp add: mult_le_0_iff)
  then have "round_half_even (r * 10 ^ 2) \<le> 0" by (rule round_half_even_le)
  then show ?thesis by (simp add: py_round_def divide_le_0_iff)
qed

lemma push_step_bounds: "s - 10 \<le> push_step R rd s \<and> push_step R rd s \<le> s"
  by (simp add: push_step_def split: sum.splits)

lemma commit_step_bounds: "s - 20 \<le> commit_step act s \<and> commit_step act s \<le> s"
  by (simp add: commit_step_def)

lemma license_step_bounds: "s - 10 \<le> license_step rd s \<and> license_step rd s \<le> s"
  by (simp add: license_step_def)

lemma description_step_bounds: "s - 10 \<le> description_step rd s \<and> description_step rd s \<le> s"
  by (simp add: description_step_def)

lemma stars_step_bounds: "stars_step rd s = Inr s' \<Longrightarrow> s - 10 \<le> s' \<and> s' \<le> s"
  by (auto simp: stars_step_def split: option.splits if_splits)

lemma ratio_bounds:
  assumes "0 \<le> a" "a \<le> b" "0 < (b::int)"
  shows "0 \<le> (of_int a / of_int b :: rat) * 20" "(of_int a / of_int b :: rat) * 20 \<le> 20"
proof -
  from assms have "(of_int a :: rat) \<le> of_int b" "0 < (of_int b :: rat)" "0 \<le> (of_int a :: rat)" by simp_all
  then have q: "0 \<le> (of_int a / of_int b :: rat)" "(of_int a / of_int b :: rat) \<le> 1"
    by (simp_all add: divide_le_eq_1)
  from q(1) show "0 \<le> (of_int a / of_int b :: rat) * 20" by (rule mult_nonneg_nonneg) simp
  from q(2) have "(of_int a / of_int b :: rat) * 20 \<le> 1 * 20" by (rule mult_right_mono) simp
  then show "(of_int a / of_int b :: rat) * 20 \<le> 20" by (simp only: mult_1)
qed

lemma issue_step_total: "\<exists>s'. issue_step iss s = Inr s'"
  by (simp add: issue_step_def truediv_def)

lemma issue_step_bounds:
  assumes "0 \<le> stale_issues iss" "stale_issues iss \<le> open_issues iss"
    and "0 \<le> bug_issues iss" "bug_issues iss \<le> open_issues iss"
    and "issue_step iss s = Inr s'"
  shows "s - 40 \<le> s' \<and> s' \<le> s"
proof (cases "0 < open_issues iss")
  case True
  with assms(5) have s': "s' = s - of_int (stale_issues iss) / of_int (open_issues iss) * 20
       - of_int (bug_issues iss) / of_int (open_issues iss) * 20"
    by (simp add: issue_step_def truediv_def)
  from ratio_bounds [OF assms(1,2) True] ratio_bounds [OF assms(3,4) True] s'
  show ?thesis by linarith
next
  case False
  with assms(5) show ?thesis by (simp add: issue_step_def)
qed

lemma raw_score_bounds:
  assumes "0 \<le> stale_issues iss" "stale_issues iss \<le> open_issues iss"
    and "0 \<le> bug_issues iss" "bug_issues iss \<le> open_issues iss"
    and "raw_score R rd act iss = Inr r"
  shows "0 \<le> r \<and> r \<le> 100"
proof -
  from assms(5) obtain s3 s4 where
    s3: "issue_step iss (commit_step act (push_step R rd 100)) = Inr s3"
    and s4: "stars_step rd s3 = Inr s4"
    and r: "r = description_step rd (license_step rd s4)"
    by (auto simp: raw_score_def then_do_eq_Inr)
  from issue_step_bounds [OF assms(1-4) s3] stars_step_bounds [OF s4]
    push_step_bounds [of 100 R rd] commit_step_bounds [of "push_step R rd 100" act]
    license_step_bounds [of s4 rd] description_step_bounds [of "license_step rd s4" rd] r
  show ?thesis by linarith
qed

lemma raw_score_total:
  "num_of (dict_get rd ''stargazers_count'' (PInt 0)) \<noteq> None \<Longrightarrow> \<exists>r. raw_score R rd act iss = Inr r"
  using issue_step_total [of iss "commit_step act (push_step R rd 100)"]
  by (auto simp: raw_score_def stars_step_def)

subsection \<open>The claims\<close>

lemma raw_score_no_zero_division: "raw_score R rd act iss \<noteq> Inl ZeroDivisionError"
proof -
  obtain s3 where "issue_step iss (commit_step act (push_step R rd 100)) = Inr s3"
    using issue_step_total by blast
  then show ?thesis
    by (auto simp: raw_score_def stars_step_def split: option.splits)
qed

lemma calculate_health_score_no_zero_division:
  "calculate_health_score R rd act iss \<noteq> Inl ZeroDivisionError"
  using raw_score_no_zero_division [of R rd act iss]
  by (cases "raw_score R rd act iss") (auto simp: calculate_health_score_def)

text \<open>
  Claim C2. With \<^verbatim>\<open>open_issues == 0\<close> the block of the two proportional penalties leaves
  the score as it is, the scorer raises no \<^verbatim>\<open>ZeroDivisionError\<close>, and its result is the
  one it gives for no stale and no bug issue, whatever \<^verbatim>\<open>stale_issues\<close> and
  \<^verbatim>\<open>bug_issues\<close> are, for every repository metadata and every activity.
\<close>

theorem health_score_no_open_issues:
  assumes "open_issues iss = 0"
  shows "issue_step iss score = Inr score
       \<and> calculate_health_score R rd act iss \<noteq> Inl ZeroDivisionError
       \<and> calculate_health_score R rd act iss =
           calculate_health_score R rd act \<lparr>open_issues = 0, stale_issues = 0, bug_issues = 0\<rparr>"
proof -
  have a: "issue_step iss x = Inr x" for x
    using assms by (simp add: issue_step_def)
  have b: "issue_step \<lparr>open_issues = 0, stale_issues = 0, bug_issues = 0\<rparr> x = Inr x" for x
    by (simp add: issue_step_def)
  have "raw_score R rd act iss =
        raw_score R rd act \<lparr>open_issues = 0, stale_issues = 0, bug_issues = 0\<rparr>"
    by (simp add: raw_score_def a b)
  then show ?thesis
    using a calculate_health_score_no_zero_division [of R rd act iss]
    by (simp add: calculate_health_score_def)
qed

lemma sample_push_step: "push_step sample_runtime sample_repo s = s"
  by (simp add: push_step_def sample_repo_def getitem_def parse_timestamp_def replace_Z_def
      sample_runtime_def sample_fromisoformat_def timedelta_days_def)

lemma empty_push_step: "push_step R [] s = s - 10"
  by (simp add: push_step_def getitem_def)

lemma sample_repo_steps:
  "stars_step sample_repo s = Inr s" "license_step sample_repo s = s"
  "description_step sample_repo s = s"
  by (simp_all add: stars_step_def license_step_def description_step_def dict_get_def
      sample_repo_def)

lemma sample_raw_score:
  "raw_score sample_runtime sample_repo sample_activity iss =
     issue_step iss 100"
proof -
  obtain s3 where s3: "issue_step iss 100 = Inr s3" using issue_step_total by blast
  then show ?thesis
    by (simp add: raw_score_def sample_push_step commit_step_def sample_activity_def
      sample_repo_steps)
qed

lemma empty_raw_score:
  "raw_score R [] idle_activity iss = then_do (issue_step iss 70) (\<lambda>s. Inr (s - 30))"
proof -
  obtain s3 where s3: "issue_step iss 70 = Inr s3" using issue_step_total by blast
  then show ?thesis
    by (simp add: raw_score_def empty_push_step commit_step_def idle_activity_def
      stars_step_def license_step_def description_step_def dict_get_def)
qed

theorem health_score_no_open_issues_witness:
  "calculate_health_score sample_runtime sample_repo sample_activity
      \<lparr>open_issues = 0, stale_issues = 7, bug_issues = 9\<rparr> = Inr 100
   \<and> calculate_health_score sample_runtime sample_repo sample_activity
      \<lparr>open_issues = 0, stale_issues = 0, bug_issues = 0\<rparr> = Inr 100
   \<and> issue_step \<lparr>open_issues = 0, stale_issues = 7, bug_issues = 9\<rparr> 100 = Inr 100"
proof -
  have z: "calculate_health_score sample_runtime sample_repo sample_activity
      \<lparr>open_issues = 0, stale_issues = 0, bug_issues = 0\<rparr> = Inr 100"
    by (simp add: calculate_health_score_def sample_raw_score issue_step_def py_round_def
        round_half_even_def)
  show ?thesis
    using health_score_no_open_issues [of "\<lparr>open_issues = 0, stale_issues = 7, bug_issues = 9\<rparr>"
        100 sample_runtime sample_repo sample_activity] z
    by simp
qed

text \<open>
  Claim C3. When the stale and the bug issues are between 0 and the open issues, a
  score the scorer returns is between 0 and 100 and a multiple of 1/100; it returns
  one whenever the star count is a number. Whatever the input, a raw score below 0
  gives exactly 0, and a rounded raw score that is not negative is returned as it is,
  also above 100: the last line of the function bounds the score from below only.
\<close>

theorem health_score_range:
  "(0 \<le> stale_issues iss \<and> stale_issues iss \<le> open_issues iss
      \<and> 0 \<le> bug_issues iss \<and> bug_issues iss \<le> open_issues iss
      \<and> calculate_health_score R rd act iss = Inr s
    \<longrightarrow> 0 \<le> s \<and> s \<le> 100 \<and> (\<exists>k::int. s = of_int k / 100))
   \<and> (num_of (dict_get rd ''stargazers_count'' (PInt 0)) \<noteq> None
    \<longrightarrow> (\<exists>s'. calculate_health_score R rd act iss = Inr s'))
   \<and> (raw_score R rd act iss = Inr r \<and> r < 0
    \<longrightarrow> calculate_health_score R rd act iss = Inr 0)
   \<and> (raw_score R rd act iss = Inr r \<and> 0 \<le> py_round r 2
    \<longrightarrow> calculate_health_score R rd act iss = Inr (py_round r 2))"
proof (intro conjI impI)
  assume a: "0 \<le> stale_issues iss \<and> stale_issues iss \<le> open_issues iss
      \<and> 0 \<le> bug_issues iss \<and> bug_issues iss \<le> open_issues iss
      \<and> calculate_health_score R rd act iss = Inr s"
  then obtain r0 where r0: "raw_score R rd act iss = Inr r0" and s: "s = max 0 (py_round r0 2)"
    by (auto simp: calculate_health_score_def then_do_eq_Inr)
  from a r0 have b: "0 \<le> r0 \<and> r0 \<le> 100" by (intro raw_score_bounds) auto
  then have "0 \<le> py_round r0 2" "py_round r0 2 \<le> 100"
    by (simp_all add: py_round_2_nonneg py_round_2_le_100)
  then have s2: "s = py_round r0 2" and bs: "0 \<le> s" "s \<le> 100" using s by auto
  from s2 have "s = of_int (round_half_even (r0 * 10 ^ 2)) / 100" by (simp add: py_round_def)
  then have "\<exists>k::int. s = of_int k / 100" by blast
  with bs show "0 \<le> s" "s \<le> 100" "\<exists>k::int. s = of_int k / 100" by auto
next
  assume "num_of (dict_get rd ''stargazers_count'' (PInt 0)) \<noteq> None"
  then obtain r0 where "raw_score R rd act iss = Inr r0" using raw_score_total by blast
  then show "\<exists>s'. calculate_health_score R rd act iss = Inr s'"
    by (simp add: calculate_health_score_def)
next
  assume "raw_score R rd act iss = Inr r \<and> r < 0"
  then have r: "raw_score R rd act iss = Inr r" and "r \<le> 0" by auto
  then have "py_round r 2 \<le> 0" by (simp add: py_round_2_nonpos)
  with r show "calculate_health_score R rd act iss = Inr 0"
    by (simp add: calculate_health_score_def max_def)
next
  assume "raw_score R rd act iss = Inr r \<and> 0 \<le> py_round r 2"
  then show "calculate_health_score R rd act iss = Inr (py_round r 2)"
    by (simp add: calculate_health_score_def max_def)
qed

lemma py_round_samples:
  "py_round (260 / 3) 2 = 8667 / 100" "py_round (- 160) 2 = - 160" "py_round 200 2 = 200"
  by code_simp+

theorem health_score_range_witness:
  "calculate_health_score sample_runtime sample_repo sample_activity
      \<lparr>open_issues = 3, stale_issues = 1, bug_issues = 1\<rparr> = Inr (8667 / 100)
   \<and> raw_score sample_runtime [] idle_activity
      \<lparr>open_issues = 1, stale_issues = 10, bug_issues = 0\<rparr> = Inr (- 160)
   \<and> calculate_health_score sample_runtime [] idle_activity
      \<lparr>open_issues = 1, stale_issues = 10, bug_issues = 0\<rparr> = Inr 0
   \<and> raw_score sample_runtime sample_repo sample_activity
      \<lparr>open_issues = 1, stale_issues = - 5, bug_issues = 0\<rparr> = Inr 200
   \<and> calculate_health_score sample_runtime sample_repo sample_activity
      \<lparr>open_issues = 1, stale_issues = - 5, bug_issues = 0\<rparr> = Inr 200"
proof -
  have r1: "raw_score sample_runtime sample_repo sample_activity
      \<lparr>open_issues = 3, stale_issues = 1, bug_issues = 1\<rparr> = Inr (260 / 3)"
    by (simp add: sample_raw_score issue_step_def truediv_def)
  have c1: "calculate_health_score sample_runtime sample_repo sample_activity
      \<lparr>open_issues = 3, stale_issues = 1, bug_issues = 1\<rparr> = Inr (8667 / 100)"
    by (simp add: calculate_health_score_def r1 py_round_samples)
  have r2: "raw_score sample_runtime [] idle_activity
      \<lparr>open_issues = 1, stale_issues = 10, bug_issues = 0\<rparr> = Inr (- 160)"
    by (simp add: empty_raw_score issue_step_def truediv_def)
  have r3: "raw_score sample_runtime sample_repo sample_activity
      \<lparr>open_issues = 1, stale_issues = - 5, bug_issues = 0\<rparr> = Inr 200"
    by (simp add: sample_raw_score issue_step_def truediv_def)
  note t1 = health_score_range [of "\<lparr>open_issues = 3, stale_issues = 1, bug_issues = 1\<rparr>"
      sample_runtime sample_repo sample_activity "8667 / 100" "260 / 3"]
  note t2 = health_score_range [of "\<lparr>open_issues = 1, stale_issues = 10, bug_issues = 0\<rparr>"
      sample_runtime "[]" idle_activity 0 "- 160"]
  note t3 = health_score_range [of "\<lparr>open_issues = 1, stale_issues = - 5, bug_issues = 0\<rparr>"
      sample_runtime sample_repo sample_activity 200 200]
  from t2 r2 have c2: "calculate_health_score sample_runtime [] idle_activity
      \<lparr>open_issues = 1, stale_issues = 10, bug_issues = 0\<rparr> = Inr 0"
    by simp
  from t3 r3 have c3: "calculate_health_score sample_runtime sample_repo sample_activity
      \<lparr>open_issues = 1, stale_issues = - 5, bug_issues = 0\<rparr> = Inr 200"
    by (simp add: py_round_samples)
  from t1 c1 have "(0::rat) \<le> 8667 / 100 \<and> (8667 / 100 :: rat) \<le> 100" by simp
  with c1 r2 c2 r3 c3 show ?thesis by simp
qed

section \<open>Properties of the aggregators\<close>

subsection \<open>The activity aggregator\<close>

lemma fold_err_invariant:
  assumes step: "\<And>x s s'. P s \<Longrightarrow> f x s = Inr s' \<Longrightarrow> P s'"
  shows "P s \<Longrightarrow> fold_err f xs s = Inr s' \<Longrightarrow> P s'"
proof (induction xs arbitrary: s)
  case Nil
  then show ?case by simp
next
  case (Cons x xs)
  from Cons.prems(2) obtain s1 where s1: "f x s = Inr s1" and rest: "fold_err f xs s1 = Inr s'"
    by (auto split: sum.splits)
  from step [OF Cons.prems(1) s1] have "P s1" .
  then show ?case using rest by (rule Cons.IH)
qed

lemma fold_err_add_week:
  assumes "map (\<lambda>w. map_of w ''total'') weeks = map (\<lambda>n. Some (PInt n)) totals"
  shows "fold_err add_week weeks acc = Inr (acc + of_int (sum_list totals))"
  using assms
proof (induction weeks arbitrary: totals acc)
  case Nil
  then show ?case by simp
next
  case (Cons w weeks)
  then obtain n ns where t: "totals = n # ns" by (cases totals) auto
  with Cons.prems have w: "map_of w ''total'' = Some (PInt n)"
    and rest: "map (\<lambda>w. map_of w ''total'') weeks = map (\<lambda>n. Some (PInt n)) ns" by auto
  from w have "add_week w acc = Inr (acc + of_int n)"
    by (simp add: add_week_def getitem_def)
  with Cons.IH [OF rest] t show ?case by (simp add: add.assoc)
qed

lemma py_round_zero: "py_round 0 n = 0"
  by (simp add: py_round_def round_half_even_def)

lemma average_of_weeks:
  assumes "map (\<lambda>w. map_of w ''total'') weeks = map (\<lambda>n. Some (PInt n)) totals"
  shows "(if weeks \<noteq> []
          then then_do (fold_err add_week weeks 0) (\<lambda>total. Inr (total / 52))
          else Inr 0) = (Inr (of_int (sum_list totals) / 52) :: py_error + rat)"
proof (cases "weeks = []")
  case True
  with assms show ?thesis by simp
next
  case False
  with fold_err_add_week [OF assms, of 0] show ?thesis by simp
qed

text \<open>
  Claim C7. For weekly records that carry the integer totals \<open>totals\<close>, of any number,
  the average of the activity aggregator is the sum of the totals divided by 52 and
  rounded to two places, whatever the length of the sequence: with no issue the
  aggregator returns it with two zero counters, and with any issue list every result it
  returns has it. For no week and no issue the result is \<^verbatim>\<open>ActivityTrends(0.0, 0, 0)\<close>.
\<close>

theorem activity_average_fixed_divisor:
  assumes "map (\<lambda>w. map_of w ''total'') commit_activity = map (\<lambda>n. Some (PInt n)) totals"
  shows "calculate_activity_trends R commit_activity [] =
           Inr \<lparr>commits_per_week_avg = py_round (of_int (sum_list totals) / 52) 2,
                new_issues = 0, closed_issues = 0\<rparr>
       \<and> (calculate_activity_trends R commit_activity issues_list = Inr t
            \<longrightarrow> commits_per_week_avg t = py_round (of_int (sum_list totals) / 52) 2)
       \<and> calculate_activity_trends R [] [] =
           Inr \<lparr>commits_per_week_avg = 0, new_issues = 0, closed_issues = 0\<rparr>"
proof -
  note avg = average_of_weeks [OF assms]
  have a: "calculate_activity_trends R commit_activity [] =
           Inr \<lparr>commits_per_week_avg = py_round (of_int (sum_list totals) / 52) 2,
                new_issues = 0, closed_issues = 0\<rparr>"
    unfolding calculate_activity_trends_def avg by simp
  have b: "calculate_activity_trends R commit_activity issues_list = Inr t
            \<longrightarrow> commits_per_week_avg t = py_round (of_int (sum_list totals) / 52) 2"
    unfolding calculate_activity_trends_def avg by (auto simp: then_do_eq_Inr)
  have c: "calculate_activity_trends R [] [] =
           Inr \<lparr>commits_per_week_avg = 0, new_issues = 0, closed_issues = 0\<rparr>"
    by (simp add: calculate_activity_trends_def py_round_zero)
  from a b c show ?thesis by simp
qed

lemma py_round_105_52: "py_round (105 / 52) 2 = 101 / 50"
  by code_simp

theorem activity_average_fixed_divisor_witness:
  "calculate_activity_trends sample_runtime [[(''total'', PInt 100)], [(''total'', PInt 5)]] [] =
     Inr \<lparr>commits_per_week_avg = 101 / 50, new_issues = 0, closed_issues = 0\<rparr>
   \<and> calculate_activity_trends sample_runtime [] [] =
     Inr \<lparr>commits_per_week_avg = 0, new_issues = 0, closed_issues = 0\<rparr>"
  using activity_average_fixed_divisor
    [of "[[(''total'', PInt 100)], [(''total'', PInt 5)]]" "[100, 5]" sample_runtime "[]"]
  by (simp add: py_round_105_52)

subsection \<open>The issue health aggregator\<close>

lemma health_issue_not_open:
  "map_of issue ''state'' = Some st \<Longrightarrow> st \<noteq> PStr ''open'' \<Longrightarrow> health_issue R t issue c = Inr c"
  by (cases c) (simp add: health_issue_def getitem_def)

lemma health_issue_result:
  assumes "health_issue R t issue (a, s, b) = Inr c'"
  shows "(map_of issue ''state'' = Some (PStr ''open'')
            \<and> fst c' = a + 1 \<and> fst (snd c') \<in> {s, s + 1} \<and> snd (snd c') \<in> {b, b + 1})
       \<or> (map_of issue ''state'' \<noteq> Some (PStr ''open'') \<and> c' = (a, s, b))"
  using assms
  by (auto simp: health_issue_def getitem_def then_do_eq_Inr split: option.splits if_splits)

lemma health_issue_keeps_bounds:
  assumes "0 \<le> fst (snd c) \<and> fst (snd c) \<le> fst c \<and> 0 \<le> snd (snd c) \<and> snd (snd c) \<le> fst c"
    and "health_issue R t issue c = Inr c'"
  shows "0 \<le> fst (snd c') \<and> fst (snd c') \<le> fst c' \<and> 0 \<le> snd (snd c') \<and> snd (snd c') \<le> fst c'"
proof -
  obtain a s b where c: "c = (a, s, b)" by (cases c)
  from health_issue_result [OF assms(2) [unfolded c]] assms(1) c show ?thesis by auto
qed

lemma fold_health_issue_bounds:
  assumes "fold_err (health_issue R t) issues (0, 0, 0) = Inr c'"
  shows "0 \<le> fst (snd c') \<and> fst (snd c') \<le> fst c' \<and> 0 \<le> snd (snd c') \<and> snd (snd c') \<le> fst c'"
proof (rule fold_err_invariant [where f = "health_issue R t" and s = "(0, 0, 0)" and xs = issues])
  show "0 \<le> fst (snd (0::int, 0::int, 0::int)) \<and> fst (snd (0::int, 0::int, 0::int)) \<le> fst (0::int, 0::int, 0::int)
      \<and> 0 \<le> snd (snd (0::int, 0::int, 0::int)) \<and> snd (snd (0::int, 0::int, 0::int)) \<le> fst (0::int, 0::int, 0::int)"
    by simp
  show "fold_err (health_issue R t) issues (0, 0, 0) = Inr c'" by (rule assms)
  fix x c c1
  assume "0 \<le> fst (snd c) \<and> fst (snd c) \<le> fst c \<and> 0 \<le> snd (snd c) \<and> snd (snd c) \<le> fst c"
    and "health_issue R t x c = Inr c1"
  then show "0 \<le> fst (snd c1) \<and> fst (snd c1) \<le> fst c1 \<and> 0 \<le> snd (snd c1) \<and> snd (snd c1) \<le> fst c1"
    by (rule health_issue_keeps_bounds)
qed

lemma fold_health_issue_open_count:
  "fold_err (health_issue R t) issues c = Inr c' \<Longrightarrow>
   fst c' = fst c + int (length (filter (\<lambda>i. map_of i ''state'' = Some (PStr ''open'')) issues))"
proof (induction issues arbitrary: c)
  case Nil
  then show ?case by simp
next
  case (Cons i issues)
  from Cons.prems obtain c1 where c1: "health_issue R t i c = Inr c1"
    and rest: "fold_err (health_issue R t) issues c1 = Inr c'"
    by (auto split: sum.splits)
  obtain a s b where c: "c = (a, s, b)" by (cases c)
  from health_issue_result [OF c1 [unfolded c]] c Cons.IH [OF rest] show ?case by auto
qed

lemma fold_health_issue_filter:
  "\<forall>i \<in> set issues. map_of i ''state'' \<noteq> None \<Longrightarrow>
   fold_err (health_issue R t) issues c =
   fold_err (health_issue R t) (filter (\<lambda>i. map_of i ''state'' = Some (PStr ''open'')) issues) c"
proof (induction issues arbitrary: c)
  case Nil
  show ?case by simp
next
  case (Cons i issues)
  then have IH: "fold_err (health_issue R t) issues c1 =
      fold_err (health_issue R t) (filter (\<lambda>i. map_of i ''state'' = Some (PStr ''open'')) issues) c1" for c1
    by simp
  show ?case
  proof (cases "map_of i ''state'' = Some (PStr ''open'')")
    case True
    then show ?thesis by (simp add: IH split: sum.splits)
  next
    case False
    with Cons.prems obtain st where "map_of i ''state'' = Some st" "st \<noteq> PStr ''open''" by auto
    then have "health_issue R t i c = Inr c" by (rule health_issue_not_open)
    with False show ?thesis by (simp add: IH)
  qed
qed

text \<open>
  Claim C8. Every result of the issue health aggregator has its stale and its bug
  issues between 0 and its open issues, which are the number of issues whose state is
  \<^verbatim>\<open>open\<close>. Issues of another state count for nothing: on a list whose issues all
  have a state, the aggregator does what it does on the open issues alone.
\<close>

theorem issue_health_invariant:
  "(analyze_issue_health R issues_list = Inr h \<longrightarrow>
      0 \<le> stale_issues h \<and> stale_issues h \<le> open_issues h
      \<and> 0 \<le> bug_issues h \<and> bug_issues h \<le> open_issues h
      \<and> open_issues h =
          int (length (filter (\<lambda>i. map_of i ''state'' = Some (PStr ''open'')) issues_list)))
   \<and> ((\<forall>i \<in> set issues_list. map_of i ''state'' \<noteq> None) \<longrightarrow>
        analyze_issue_health R issues_list =
        analyze_issue_health R
          (filter (\<lambda>i. map_of i ''state'' = Some (PStr ''open'')) issues_list))"
proof (intro conjI impI)
  assume a: "analyze_issue_health R issues_list = Inr h"
  let ?t = "Naive (utcnow R - timedelta_days 90)"
  from a obtain c where c: "fold_err (health_issue R ?t) issues_list (0, 0, 0) = Inr c"
    and h: "h = \<lparr>open_issues = fst c, stale_issues = fst (snd c), bug_issues = snd (snd c)\<rparr>"
    by (auto simp: analyze_issue_health_def then_do_eq_Inr split: prod.splits)
  from fold_health_issue_bounds [OF c] h
  show "0 \<le> stale_issues h" "stale_issues h \<le> open_issues h"
    "0 \<le> bug_issues h" "bug_issues h \<le> open_issues h" by simp_all
  from fold_health_issue_open_count [OF c] h
  show "open_issues h =
          int (length (filter (\<lambda>i. map_of i ''state'' = Some (PStr ''open'')) issues_list))"
    by simp
next
  assume "\<forall>i \<in> set issues_list. map_of i ''state'' \<noteq> None"
  then show "analyze_issue_health R issues_list =
        analyze_issue_health R
          (filter (\<lambda>i. map_of i ''state'' = Some (PStr ''open'')) issues_list)"
    unfolding analyze_issue_health_def by (simp only: fold_health_issue_filter [symmetric])
qed

lemma lower_sample_label: "lower ''Bug: crash'' = ''bug: crash''"
  by code_simp

lemma sample_issue_health:
  "analyze_issue_health sample_runtime [stale_bug_issue, closed_issue, fresh_issue] =
     Inr \<lparr>open_issues = 2, stale_issues = 1, bug_issues = 1\<rparr>"
  by (simp add: analyze_issue_health_def health_issue_def getitem_def parse_timestamp_def
      replace_Z_def iterate_def label_is_bug_def lower_sample_label startswith_def
      stale_bug_issue_def closed_issue_def fresh_issue_def
      sample_runtime_def sample_fromisoformat_def timedelta_days_def)

theorem issue_health_invariant_witness:
  "analyze_issue_health sample_runtime [stale_bug_issue, closed_issue, fresh_issue] =
     Inr \<lparr>open_issues = 2, stale_issues = 1, bug_issues = 1\<rparr>
   \<and> analyze_issue_health sample_runtime [stale_bug_issue, fresh_issue] =
     Inr \<lparr>open_issues = 2, stale_issues = 1, bug_issues = 1\<rparr>"
proof -
  have st: "map_of stale_bug_issue ''state'' = Some (PStr ''open'')"
    "map_of closed_issue ''state'' = Some (PStr ''closed'')"
    "map_of fresh_issue ''state'' = Some (PStr ''open'')"
    by (simp_all add: stale_bug_issue_def closed_issue_def fresh_issue_def)
  from issue_health_invariant [of sample_runtime "[stale_bug_issue, closed_issue, fresh_issue]"
      "\<lparr>open_issues = 2, stale_issues = 1, bug_issues = 1\<rparr>"]
  show ?thesis by (simp add: st sample_issue_health)
qed

subsection \<open>Malformed records\<close>

text \<open>
  Claim C1 says that no component raises on malformed or missing data. The
  aggregators do: an open issue without \<^verbatim>\<open>updated_at\<close>, with a timestamp that does not
  parse or with labels that are no list, an issue without \<^verbatim>\<open>created_at\<close> or with a null
  one, a week without \<^verbatim>\<open>total\<close>, a contributor without \<^verbatim>\<open>login\<close>, a \<^verbatim>\<open>package.json\<close>
  that decodes to a list and a null star count each end in an exception. The scorer
  guards the same timestamp expression: a missing or null \<^verbatim>\<open>pushed_at\<close> costs 10 points
  and raises nothing.
\<close>

theorem aggregators_raise_on_malformed_records:
  "analyze_issue_health R [[(''state'', PStr ''open''), (''labels'', PList [])]] = Inl KeyError
   \<and> analyze_issue_health sample_runtime
        [[(''state'', PStr ''open''), (''updated_at'', PStr ''yesterday''), (''labels'', PList [])]]
       = Inl ValueError
   \<and> analyze_issue_health sample_runtime
        [[(''state'', PStr ''open''), (''updated_at'', PStr ''2024-05-22T00:00:00Z''),
          (''labels'', PNone)]]
       = Inl TypeError
   \<and> calculate_activity_trends R [] [[(''state'', PStr ''open'')]] = Inl KeyError
   \<and> calculate_activity_trends R [] [[(''created_at'', PNone), (''closed_at'', PNone)]]
       = Inl AttributeError
   \<and> calculate_activity_trends R [[(''week'', PInt 1)]] [] = Inl KeyError
   \<and> format_contributors R [[(''contributions'', PInt 3)]] = Inl KeyError
   \<and> parse_package_json sample_runtime ''[]'' = Inl AttributeError
   \<and> calculate_health_score R [(''stargazers_count'', PNone)] act iss = Inl TypeError
   \<and> push_step R [(''pushed_at'', PNone)] 100 = 90
   \<and> push_step R [] 100 = 90"
proof -
  have 1: "analyze_issue_health R [[(''state'', PStr ''open''), (''labels'', PList [])]] = Inl KeyError"
    by (simp add: analyze_issue_health_def health_issue_def getitem_def)
  have 2: "analyze_issue_health sample_runtime
        [[(''state'', PStr ''open''), (''updated_at'', PStr ''yesterday''), (''labels'', PList [])]]
       = Inl ValueError"
    by (simp add: analyze_issue_health_def health_issue_def getitem_def parse_timestamp_def
        replace_Z_def sample_runtime_def sample_fromisoformat_def)
  have 3: "analyze_issue_health sample_runtime
        [[(''state'', PStr ''open''), (''updated_at'', PStr ''2024-05-22T00:00:00Z''),
          (''labels'', PNone)]]
       = Inl TypeError"
    by (simp add: analyze_issue_health_def health_issue_def getitem_def parse_timestamp_def
        replace_Z_def iterate_def sample_runtime_def sample_fromisoformat_def timedelta_days_def)
  have 4: "calculate_activity_trends R [] [[(''state'', PStr ''open'')]] = Inl KeyError"
    by (simp add: calculate_activity_trends_def count_issue_def getitem_def)
  have 5: "calculate_activity_trends R [] [[(''created_at'', PNone), (''closed_at'', PNone)]]
       = Inl AttributeError"
    by (simp add: calculate_activity_trends_def count_issue_def getitem_def parse_timestamp_def
        replace_Z_def)
  have 6: "calculate_activity_trends R [[(''week'', PInt 1)]] [] = Inl KeyError"
    by (simp add: calculate_activity_trends_def add_week_def getitem_def)
  have 7: "format_contributors R [[(''contributions'', PInt 3)]] = Inl KeyError"
    by (simp add: format_contributors_def make_contributor_def getitem_def)
  have 8: "parse_package_json sample_runtime ''[]'' = Inl AttributeError"
    by (simp add: parse_package_json_def py_get_def sample_runtime_def sample_json_loads_def
        sample_package_json_def)
  obtain s3 where "issue_step iss (commit_step act (push_step R [(''stargazers_count'', PNone)] 100)) = Inr s3"
    using issue_step_total by blast
  then have 9: "calculate_health_score R [(''stargazers_count'', PNone)] act iss = Inl TypeError"
    by (simp add: calculate_health_score_def raw_score_def stars_step_def dict_get_def)
  have 10: "push_step R [(''pushed_at'', PNone)] 100 = 90" "push_step R [] 100 = 90"
    by (simp_all add: push_step_def getitem_def parse_timestamp_def replace_Z_def)
  from 1 2 3 4 5 6 7 8 9 10 show ?thesis by simp
qed

end
